theory Spec2Isabelle
  imports Main "HOL-Library.AList" "HOL-Library.Sublist"
begin

section \<open>Python values, dictionaries and strings\<close>

text \<open>
  The configuration record is the dictionary that the JSON config file parses to. Its
  values are modelled by \<open>pyval\<close>: \<open>None\<close>, booleans, integers, strings, sequences
  (a JSON array; Python's list and tuple are both \<open>VList\<close>) and nested dictionaries.
  Floating point numbers are left out. A dictionary is an association list in insertion
  order: \<open>AList.update\<close> is Python's \<open>d[k] = v\<close> (in place for a key that is present,
  appended otherwise), \<open>AList.delete\<close> is \<open>d.pop(k, None)\<close>, \<open>map_of d k\<close> is the
  lookup. A well-formed dictionary has distinct keys.
\<close>

datatype pyval =
    VNone
  | VBool bool
  | VInt int
  | VStr string
  | VList "pyval list"
  | VDict "(string \<times> pyval) list"

type_synonym config = "(string \<times> pyval) list"

text \<open>The exceptions that the modelled code can raise or catch.\<close>

datatype py_error = TypeError | IndexError | KeyError | RuntimeError | OSError | ShutilError

text \<open>\<open>s.startswith(p)\<close>.\<close>

definition startswith :: "string \<Rightarrow> string \<Rightarrow> bool" where
  "startswith s p = prefix p s"

text \<open>
  \<open>s.replace(old, new)\<close>: every non-overlapping occurrence of \<open>old\<close>, scanning from the
  left, is replaced by \<open>new\<close>. For the empty pattern Python inserts \<open>new\<close> before every
  character and at the end.
\<close>

fun replace_scan :: "string \<Rightarrow> string \<Rightarrow> string \<Rightarrow> string" where
  "replace_scan old new [] = []"
| "replace_scan old new (c # cs) =
     (if old \<noteq> [] \<and> prefix old (c # cs)
      then new @ replace_scan old new (drop (length old - 1) cs)
      else c # replace_scan old new cs)"

definition py_replace :: "string \<Rightarrow> string \<Rightarrow> string \<Rightarrow> string" where
  "py_replace s old new =
     (if old = [] then new @ concat (map (\<lambda>c. c # new) s) else replace_scan old new s)"

text \<open>\<open>old in s\<close>: the string \<open>old\<close> occurs somewhere in the string \<open>s\<close>.\<close>

fun occurs :: "string \<Rightarrow> string \<Rightarrow> bool" where
  "occurs old [] = (old = [])"
| "occurs old (c # cs) = (prefix old (c # cs) \<or> occurs old cs)"

text \<open>\<open>x in xs\<close> for a list of integers: \<open>==\<close> on each member; a bool is the integer 0 or 1.\<close>

fun in_int_list :: "pyval \<Rightarrow> int list \<Rightarrow> bool" where
  "in_int_list (VInt n) xs = (n \<in> set xs)"
| "in_int_list (VBool b) xs = ((if b then 1 else 0) \<in> set xs)"
| "in_int_list _ xs = False"

text \<open>\<open>x in xs\<close> for a list of strings.\<close>

fun in_str_list :: "pyval \<Rightarrow> string list \<Rightarrow> bool" where
  "in_str_list (VStr s) xs = (s \<in> set xs)"
| "in_str_list _ xs = False"

text \<open>
  \<open>v[0]\<close>: the first element of a sequence, the first character of a string; IndexError
  when empty; KeyError on a dictionary (the keys of a JSON object are strings, never 0);
  TypeError on a value that is not subscriptable.
\<close>

fun subscript0 :: "pyval \<Rightarrow> py_error + pyval" where
  "subscript0 (VList []) = Inl IndexError"
| "subscript0 (VList (x # xs)) = Inr x"
| "subscript0 (VStr []) = Inl IndexError"
| "subscript0 (VStr (c # cs)) = Inr (VStr [c])"
| "subscript0 (VDict d) = Inl KeyError"
| "subscript0 _ = Inl TypeError"

text \<open>\<open>tuple(v)\<close>: the items of a sequence, the characters of a string, the keys of a dictionary.\<close>

fun py_tuple :: "pyval \<Rightarrow> py_error + pyval list" where
  "py_tuple (VList xs) = Inr xs"
| "py_tuple (VStr s) = Inr (map (\<lambda>c. VStr [c]) s)"
| "py_tuple (VDict d) = Inr (map (\<lambda>kv. VStr (fst kv)) d)"
| "py_tuple _ = Inl TypeError"

text \<open>
  \<open>xs >= ys\<close> for a tuple \<open>xs\<close> of values and a tuple \<open>ys\<close> of integers, as CPython
  compares tuples: skip the common prefix of \<open>==\<close>-equal items, then compare the first
  differing pair with \<open>>=\<close> (TypeError unless the left item is a number), or the lengths
  when one tuple is a prefix of the other.
\<close>

fun tuple_ge :: "pyval list \<Rightarrow> int list \<Rightarrow> py_error + bool" where
  "tuple_ge [] [] = Inr True"
| "tuple_ge [] (y # ys) = Inr False"
| "tuple_ge (x # xs) [] = Inr True"
| "tuple_ge (VInt n # xs) (y # ys) = (if n = y then tuple_ge xs ys else Inr (n \<ge> y))"
| "tuple_ge (VBool b # xs) (y # ys) =
     (if (if b then 1 else 0) = y then tuple_ge xs ys else Inr ((if b then 1 else 0) \<ge> y))"
| "tuple_ge (_ # xs) (y # ys) = Inl TypeError"

text \<open>The same comparison on tuples of integers: the lexicographic order.\<close>

fun int_tuple_ge :: "int list \<Rightarrow> int list \<Rightarrow> bool" where
  "int_tuple_ge [] [] = True"
| "int_tuple_ge [] (y # ys) = False"
| "int_tuple_ge (x # xs) [] = True"
| "int_tuple_ge (x # xs) (y # ys) = (if x = y then int_tuple_ge xs ys else x \<ge> y)"

section \<open>The collaborators of the module\<close>

text \<open>
  What \<open>migrate_data.py\<close> imports and calls but does not define is a parameter of the
  model: the constants of \<open>network\<close>, \<open>version\<close> and the fusion plugin, the functions of
  \<open>simple_config\<close> and \<open>util\<close>, and the functions of \<open>os\<close>, \<open>os.path\<close> and \<open>shutil\<close>.
  The state of the file system is a value of the type \<open>'w\<close>. A primitive that can raise
  returns the exception (if any) together with the state it leaves behind.
\<close>

record 'w sys =
  os_name :: string
  environ :: "string \<rightharpoonup> string"
  path_join :: "string \<Rightarrow> string \<Rightarrow> string"
  normcase :: "string \<Rightarrow> string"
  isfile :: "string \<Rightarrow> 'w \<Rightarrow> bool"
  isdir :: "string \<Rightarrow> 'w \<Rightarrow> bool"
  listdir :: "string \<Rightarrow> 'w \<Rightarrow> py_error + string list"
  remove :: "string \<Rightarrow> 'w \<Rightarrow> py_error option \<times> 'w"
  rmtree :: "string \<Rightarrow> 'w \<Rightarrow> py_error option \<times> 'w"
  copytree :: "string \<Rightarrow> string \<Rightarrow> 'w \<Rightarrow> py_error option \<times> 'w"
  get_user_dir :: "string option"
  read_user_config :: "string option \<Rightarrow> 'w \<Rightarrow> config"
  save_user_config :: "config \<Rightarrow> string option \<Rightarrow> 'w \<Rightarrow> 'w"
  default_fee_rate :: int
  DEFAULT_WHITELIST_SERVERS_ONLY :: bool
  DEFAULT_AUTO_CONNECT :: bool
  VERSION_TUPLE :: "int list"
  DEFAULT_SERVERS :: "pyval list"

section \<open>The module\<close>

definition INVALID_FUSION_HOSTS :: "string list" where
  "INVALID_FUSION_HOSTS = [''cashfusion.electroncash.dk'', ''161.97.82.60'']"

definition OLD_DEFAULT_FEES :: "int list" where
  "OLD_DEFAULT_FEES = [80000, 10000]"

subsection \<open>replace_src_dest_in_config\<close>

text \<open>
  The second loop of \<open>replace_src_dest_in_config\<close>, over \<open>enumerate(config["recently_open"])\<close>
  for a list: \<open>os.path.normcase\<close> raises TypeError on a value that is not a string; the
  list is updated in place at \<open>idx\<close>.
\<close>

function adjust_wallets :: "'w sys \<Rightarrow> string \<Rightarrow> string \<Rightarrow> nat \<Rightarrow> pyval list \<Rightarrow> py_error + pyval list" where
  "adjust_wallets sys norm_src norm_dest idx ws =
     (if idx < length ws then
        (case ws ! idx of
           VStr wallet \<Rightarrow>
             adjust_wallets sys norm_src norm_dest (Suc idx)
               (ws[idx := VStr (py_replace (normcase sys wallet) norm_src norm_dest)])
         | _ \<Rightarrow> Inl TypeError)
      else Inr ws)"
  by pat_completeness auto
termination
  by (relation "measure (\<lambda>(sys, norm_src, norm_dest, idx, ws). length ws - idx)") auto

text \<open>
  The first loop runs over the items of the dictionary and assigns to the key at hand.
  The second loop runs when the key \<open>recently_open\<close> is present: over the items of a
  list; over the characters of a string, where the item assignment raises TypeError at
  the first character; over the keys of a dictionary, where the assignment to the key
  \<open>idx\<close> adds a key and the iteration raises RuntimeError; a value that is not iterable
  raises TypeError.
\<close>

definition replace_src_dest_in_config :: "'w sys \<Rightarrow> string \<Rightarrow> string \<Rightarrow> config \<Rightarrow> py_error + config" where
  "replace_src_dest_in_config sys src dest config =
     (let norm_src = normcase sys src;
          norm_dest = normcase sys dest;
          config1 = fold (\<lambda>(k, v) c.
                      (case v of
                         VStr s \<Rightarrow>
                           (let norm_path = normcase sys s in
                            if startswith norm_path norm_src
                            then AList.update k (VStr (py_replace norm_path norm_src norm_dest)) c
                            else c)
                       | _ \<Rightarrow> c)) config config
      in case map_of config1 ''recently_open'' of
           None \<Rightarrow> Inr config1
         | Some (VList ws) \<Rightarrow>
             (case adjust_wallets sys norm_src norm_dest 0 ws of
                Inl e \<Rightarrow> Inl e
              | Inr ws' \<Rightarrow> Inr (AList.update ''recently_open'' (VList ws') config1))
         | Some (VStr s) \<Rightarrow> (if s = [] then Inr config1 else Inl TypeError)
         | Some (VDict d) \<Rightarrow> (if d = [] then Inr config1 else Inl RuntimeError)
         | Some _ \<Rightarrow> Inl TypeError)"

text \<open>What the first loop does to one value of the dictionary.\<close>

definition rewrite_value :: "'w sys \<Rightarrow> string \<Rightarrow> string \<Rightarrow> pyval \<Rightarrow> pyval" where
  "rewrite_value sys src dest v =
     (case v of
        VStr s \<Rightarrow>
          if startswith (normcase sys s) (normcase sys src)
          then VStr (py_replace (normcase sys s) (normcase sys src) (normcase sys dest))
          else v
      | _ \<Rightarrow> v)"

subsection \<open>reset_server_config\<close>

definition reset_server_config :: "'w sys \<Rightarrow> config \<Rightarrow> config" where
  "reset_server_config sys config =
     (let config = AList.update ''whitelist_servers_only'' (VBool (DEFAULT_WHITELIST_SERVERS_ONLY sys)) config;
          config = AList.update ''auto_connect'' (VBool (DEFAULT_AUTO_CONNECT sys)) config;
          config = AList.update ''server'' (VStr '''') config;
          config = AList.delete ''server_whitelist_added'' config;
          config = AList.delete ''server_whitelist_removed'' config;
          config = AList.delete ''server_blacklist'' config;
          config = AList.delete ''rpcuser'' config;
          config = AList.delete ''rpcpassword'' config
      in config)"

subsection \<open>Directory probes\<close>

text \<open>
  \<open>"HOME" in os.environ\<close> is \<open>environ sys ''HOME'' \<noteq> None\<close>; \<open>os.environ["HOME"]\<close> is
  then \<open>the (environ sys ''HOME'')\<close>. In the second branch one of the two variables is
  set, so \<open>app_dir\<close> is not None at the join.
\<close>

definition get_ec_user_dir :: "'w sys \<Rightarrow> string option" where
  "get_ec_user_dir sys =
     (if os_name sys = ''posix'' \<and> environ sys ''HOME'' \<noteq> None then
        Some (path_join sys (the (environ sys ''HOME'')) ''.electron-cash'')
      else if environ sys ''APPDATA'' \<noteq> None \<or> environ sys ''LOCALAPPDATA'' \<noteq> None then
        (let app_dir = environ sys ''APPDATA'';
             localapp_dir = environ sys ''LOCALAPPDATA'';
             app_dir = (if app_dir = None then localapp_dir else app_dir)
         in Some (path_join sys (the app_dir) ''ElectronCash''))
      else None)"

definition does_user_dir_exist :: "'w sys \<Rightarrow> 'w \<Rightarrow> bool" where
  "does_user_dir_exist sys w =
     (case get_user_dir sys of
        None \<Rightarrow> False
      | Some user_dir \<Rightarrow> isdir sys user_dir w)"

definition does_ec_user_dir_exist :: "'w sys \<Rightarrow> 'w \<Rightarrow> bool" where
  "does_ec_user_dir_exist sys w =
     (case get_ec_user_dir sys of
        None \<Rightarrow> False
      | Some user_dir \<Rightarrow> isdir sys user_dir w)"

subsection \<open>Statements that can raise\<close>

text \<open>
  A statement takes the state of the file system and returns \<open>Inl\<close> of the exception it
  raises or \<open>Inr\<close> of its value, together with the state it leaves. \<open>then_do\<close> runs the
  next statement unless the first one raised; \<open>for_each\<close> is a \<open>for\<close> loop.
\<close>

type_synonym ('a, 'w) stmt = "'w \<Rightarrow> (py_error + 'a) \<times> 'w"

definition then_do :: "('a, 'w) stmt \<Rightarrow> ('a \<Rightarrow> ('b, 'w) stmt) \<Rightarrow> ('b, 'w) stmt" where
  "then_do m f w = (case m w of (Inl e, w') \<Rightarrow> (Inl e, w') | (Inr a, w') \<Rightarrow> f a w')"

fun for_each :: "('a \<Rightarrow> (unit, 'w) stmt) \<Rightarrow> 'a list \<Rightarrow> (unit, 'w) stmt" where
  "for_each f [] w = (Inr (), w)"
| "for_each f (x # xs) w = (case f x w of (Inl e, w') \<Rightarrow> (Inl e, w') | (Inr _, w') \<Rightarrow> for_each f xs w')"

definition call :: "('w \<Rightarrow> py_error option \<times> 'w) \<Rightarrow> (unit, 'w) stmt" where
  "call prim w = (case prim w of (None, w') \<Rightarrow> (Inr (), w') | (Some e, w') \<Rightarrow> (Inl e, w'))"

subsection \<open>safe_rm\<close>

text \<open>
  The \<open>except (OSError, shutil.Error)\<close> clause catches these two exceptions and logs a
  warning; any other exception leaves the function.
\<close>

definition safe_rm :: "'w sys \<Rightarrow> string \<Rightarrow> (unit, 'w) stmt" where
  "safe_rm sys path w =
     (case (if isfile sys path w then call (remove sys path) w
            else if isdir sys path w then call (rmtree sys path) w
            else (Inr (), w)) of
        (Inr u, w') \<Rightarrow> (Inr (), w')
      | (Inl e, w') \<Rightarrow> (if e = OSError \<or> e = ShutilError then (Inr (), w') else (Inl e, w')))"

subsection \<open>migrate_data_from_ec\<close>

text \<open>
  The body of \<open>migrate_data_from_ec\<close> after the copy is cut into three statements, in
  the order of the source: the update of the mainnet config file, the update of the
  testnet config file, and the whole sequence of steps that follow \<open>shutil.copytree\<close>.
  The messages written to the log are left out.
\<close>

definition update_mainnet_config :: "'w sys \<Rightarrow> string \<Rightarrow> string \<Rightarrow> (unit, 'w) stmt" where
  "update_mainnet_config sys src dest w =
     (let config = read_user_config sys (Some dest) w in
      if config \<noteq> [] then
        (let config = reset_server_config sys config;
             config = (if map_of config ''fee_per_kb'' \<noteq> None
                       then AList.update ''fee_per_kb'' (VInt (default_fee_rate sys)) config
                       else config);
             config = AList.update ''use_labels'' (VBool False) config;
             config = AList.update ''use_cosigner_pool'' (VBool False) config;
             config = AList.update ''use_fusion'' (VBool False) config
         in case replace_src_dest_in_config sys src dest config of
              Inl e \<Rightarrow> (Inl e, w)
            | Inr config \<Rightarrow> (Inr (), save_user_config sys config (Some dest) w))
      else (Inr (), w))"

definition update_testnet_config :: "'w sys \<Rightarrow> string \<Rightarrow> string \<Rightarrow> string \<Rightarrow> (unit, 'w) stmt" where
  "update_testnet_config sys src dest testnet_dir_path w =
     (let testnet_config = read_user_config sys (Some testnet_dir_path) w in
      if testnet_config \<noteq> [] then
        (let testnet_config = reset_server_config sys testnet_config
         in case replace_src_dest_in_config sys src dest testnet_config of
              Inl e \<Rightarrow> (Inl e, w)
            | Inr testnet_config \<Rightarrow>
                (Inr (), save_user_config sys testnet_config (Some testnet_dir_path) w))
      else (Inr (), w))"

definition scrub_destination :: "'w sys \<Rightarrow> string \<Rightarrow> string \<Rightarrow> (unit, 'w) stmt" where
  "scrub_destination sys src dest =
     (let lock_file = path_join sys dest ''daemon'' in
      then_do (\<lambda>w. if isfile sys lock_file w then safe_rm sys lock_file w else (Inr (), w)) (\<lambda>_.
      let cache_dir = path_join sys dest ''cache'' in
      then_do (\<lambda>w. (listdir sys cache_dir w, w)) (\<lambda>filenames.
      then_do (for_each (\<lambda>filename. safe_rm sys filename) filenames) (\<lambda>_.
      let recent_servers_file = path_join sys dest ''recent-servers'' in
      then_do (safe_rm sys recent_servers_file) (\<lambda>_.
      then_do (update_mainnet_config sys src dest) (\<lambda>_.
      let testnet_dir_path = path_join sys dest ''testnet'';
          recent_tservers_file = path_join sys testnet_dir_path ''recent-servers'' in
      then_do (safe_rm sys recent_tservers_file) (\<lambda>_.
      update_testnet_config sys src dest testnet_dir_path)))))))"


text \<open>
  \<open>shutil.copytree(src, None)\<close> raises TypeError before it creates anything. The branch
  for a legacy directory that is None is never reached: \<open>does_ec_user_dir_exist\<close> is
  false there.
\<close>

definition migrate_data_from_ec :: "'w sys \<Rightarrow> (unit, 'w) stmt" where
  "migrate_data_from_ec sys w =
     (if does_ec_user_dir_exist sys w \<and> \<not> does_user_dir_exist sys w then
        (case get_ec_user_dir sys of
           None \<Rightarrow> (Inl TypeError, w)
         | Some src \<Rightarrow>
             (case get_user_dir sys of
                None \<Rightarrow> (Inl TypeError, w)
              | Some dest \<Rightarrow>
                  then_do (call (copytree sys src dest)) (\<lambda>_. scrub_destination sys src dest) w))
      else (Inr (), w))"


subsection \<open>update_config\<close>

text \<open>\<open>config.get("latest_version_used", (4, 3, 1))\<close>.\<close>

definition config_version :: "config \<Rightarrow> pyval" where
  "config_version config =
     (case map_of config ''latest_version_used'' of
        None \<Rightarrow> VList [VInt 4, VInt 3, VInt 1]
      | Some v \<Rightarrow> v)"

text \<open>
  The two fixups (the statements between the version check and the version stamp)
  change the dictionary object \<open>config\<close> in place: they are a statement whose state is
  that dictionary. When the subscript \<open>config["cashfusion_server"][0]\<close> or
  \<open>DEFAULT_SERVERS[0]\<close> raises, the dictionary keeps what the fee fixup assigned.
\<close>

definition update_config_fixups :: "'w sys \<Rightarrow> (unit, config) stmt" where
  "update_config_fixups sys config =
     (let config =
            (if in_int_list (case map_of config ''fee_per_kb'' of None \<Rightarrow> VNone | Some v \<Rightarrow> v)
                  OLD_DEFAULT_FEES
             then AList.update ''fee_per_kb'' (VInt (default_fee_rate sys)) config
             else config)
      in case map_of config ''cashfusion_server'' of
           None \<Rightarrow> (Inr (), config)
         | Some server \<Rightarrow>
             (case subscript0 server of
                Inl e \<Rightarrow> (Inl e, config)
              | Inr previous_host \<Rightarrow>
                  (if in_str_list previous_host INVALID_FUSION_HOSTS then
                     (case DEFAULT_SERVERS sys of
                        [] \<Rightarrow> (Inl IndexError, config)
                      | s # _ \<Rightarrow> (Inr (), AList.update ''cashfusion_server'' s config))
                   else (Inr (), config))))"

text \<open>
  \<open>read_user_config\<close> returns a dictionary, empty when there is no readable config file.
  The messages written to the log are left out; formatting the stored version for the
  log iterates over it, which cannot raise once \<open>tuple(config_version)\<close> has returned.
  An exception leaves the function before \<open>save_user_config\<close>: the file system is as
  it was.
\<close>

definition update_config :: "'w sys \<Rightarrow> (unit, 'w) stmt" where
  "update_config sys w =
     (let config = read_user_config sys (get_user_dir sys) w in
      if config = [] then (Inr (), w)
      else
        (case py_tuple (config_version config) of
           Inl e \<Rightarrow> (Inl e, w)
         | Inr t \<Rightarrow>
        (case tuple_ge t (VERSION_TUPLE sys) of
           Inl e \<Rightarrow> (Inl e, w)
         | Inr True \<Rightarrow> (Inr (), w)
         | Inr False \<Rightarrow>
            (case update_config_fixups sys config of
               (Inl e, config) \<Rightarrow> (Inl e, w)
             | (Inr u, config) \<Rightarrow>
                 (let config = AList.update ''latest_version_used''
                                 (VList (map VInt (VERSION_TUPLE sys))) config
                  in (Inr (), save_user_config sys config (get_user_dir sys) w))))))"

text \<open>The file system after \<open>n\<close> successive calls of \<open>update_config\<close>.\<close>

definition after_runs :: "'w sys \<Rightarrow> nat \<Rightarrow> 'w \<Rightarrow> 'w" where
  "after_runs sys n w = ((\<lambda>w. snd (update_config sys w)) ^^ n) w"

section \<open>A file system to run the module on\<close>

text \<open>
  A small POSIX-like file system for running the functions on concrete inputs: a table
  from absolute paths to entries, and the paths whose removal the system refuses (as for
  a read-only directory). A regular file holds the dictionary its content parses to,
  \<open>[]\<close> for a file that is not a readable config. A relative path is resolved against
  the working directory \<open>cwd\<close> of the process, which the module never changes.
\<close>

datatype entry = RegFile config | Directory

record world =
  files :: "(string \<times> entry) list"
  locked :: "string list"

definition abspath :: "string \<Rightarrow> string \<Rightarrow> string" where
  "abspath cwd p = (if startswith p ''/'' then p else cwd @ ''/'' @ p)"

definition under :: "string \<Rightarrow> string \<Rightarrow> bool" where
  "under d q = (q = d \<or> startswith q (d @ ''/''))"

definition posix_join :: "string \<Rightarrow> string \<Rightarrow> string" where
  "posix_join a b =
     (if startswith b ''/'' then b
      else if a = [] \<or> last a = CHR ''/'' then a @ b
      else a @ ''/'' @ b)"

definition sim_isfile :: "string \<Rightarrow> string \<Rightarrow> world \<Rightarrow> bool" where
  "sim_isfile cwd p w =
     (case map_of (files w) (abspath cwd p) of Some (RegFile c) \<Rightarrow> True | _ \<Rightarrow> False)"

definition sim_isdir :: "string \<Rightarrow> string \<Rightarrow> world \<Rightarrow> bool" where
  "sim_isdir cwd p w =
     (case map_of (files w) (abspath cwd p) of Some Directory \<Rightarrow> True | _ \<Rightarrow> False)"

definition sim_listdir :: "string \<Rightarrow> string \<Rightarrow> world \<Rightarrow> py_error + string list" where
  "sim_listdir cwd p w =
     (if sim_isdir cwd p w then
        Inr (filter (\<lambda>name. CHR ''/'' \<notin> set name)
               (map (\<lambda>qe. drop (length (abspath cwd p) + 1) (fst qe))
                  (filter (\<lambda>qe. startswith (fst qe) (abspath cwd p @ ''/'')) (files w))))
      else Inl OSError)"

definition sim_remove :: "string \<Rightarrow> string \<Rightarrow> world \<Rightarrow> py_error option \<times> world" where
  "sim_remove cwd p w =
     (if \<not> sim_isfile cwd p w \<or> abspath cwd p \<in> set (locked w) then (Some OSError, w)
      else (None, w\<lparr>files := filter (\<lambda>qe. fst qe \<noteq> abspath cwd p) (files w)\<rparr>))"

definition sim_rmtree :: "string \<Rightarrow> string \<Rightarrow> world \<Rightarrow> py_error option \<times> world" where
  "sim_rmtree cwd p w =
     (if \<not> sim_isdir cwd p w \<or> (\<exists>q \<in> set (locked w). under (abspath cwd p) q)
      then (Some OSError, w)
      else (None, w\<lparr>files := filter (\<lambda>qe. \<not> under (abspath cwd p) (fst qe)) (files w)\<rparr>))"

definition sim_copytree :: "string \<Rightarrow> string \<Rightarrow> string \<Rightarrow> world \<Rightarrow> py_error option \<times> world" where
  "sim_copytree cwd src dst w =
     (if \<not> sim_isdir cwd src w \<or> map_of (files w) (abspath cwd dst) \<noteq> None
      then (Some OSError, w)
      else (None, w\<lparr>files := files w @
              map (\<lambda>qe. (abspath cwd dst @ drop (length (abspath cwd src)) (fst qe), snd qe))
                (filter (\<lambda>qe. under (abspath cwd src) (fst qe)) (files w))\<rparr>))"

definition sim_read_user_config :: "string \<Rightarrow> string option \<Rightarrow> world \<Rightarrow> config" where
  "sim_read_user_config cwd path w =
     (case path of
        None \<Rightarrow> []
      | Some d \<Rightarrow>
          (case map_of (files w) (abspath cwd (posix_join d ''config'')) of
             Some (RegFile c) \<Rightarrow> c
           | _ \<Rightarrow> []))"

definition sim_save_user_config :: "string \<Rightarrow> config \<Rightarrow> string option \<Rightarrow> world \<Rightarrow> world" where
  "sim_save_user_config cwd c path w =
     (case path of
        None \<Rightarrow> w
      | Some d \<Rightarrow>
          w\<lparr>files := AList.update (abspath cwd (posix_join d ''config'')) (RegFile c) (files w)\<rparr>)"

text \<open>
  The system of the examples: POSIX (\<open>os.path.normcase\<close> returns its argument), home
  directory \<open>/h\<close>, working directory \<open>/tmp\<close>, user directory \<open>/h/.electrum-abc\<close>,
  running version 4.3.3 with the default fee rate 5000.
\<close>

definition posix_sys :: "world sys" where
  "posix_sys =
     \<lparr> os_name = ''posix'',
       environ = map_of [(''HOME'', ''/h'')],
       path_join = posix_join,
       normcase = (\<lambda>s. s),
       isfile = sim_isfile ''/tmp'',
       isdir = sim_isdir ''/tmp'',
       listdir = sim_listdir ''/tmp'',
       remove = sim_remove ''/tmp'',
       rmtree = sim_rmtree ''/tmp'',
       copytree = sim_copytree ''/tmp'',
       get_user_dir = Some ''/h/.electrum-abc'',
       read_user_config = sim_read_user_config ''/tmp'',
       save_user_config = sim_save_user_config ''/tmp'',
       default_fee_rate = 5000,
       DEFAULT_WHITELIST_SERVERS_ONLY = True,
       DEFAULT_AUTO_CONNECT = True,
       VERSION_TUPLE = [4, 3, 3],
       DEFAULT_SERVERS = [VList [VStr ''fusion.example.org'', VInt 8787, VBool False]] \<rparr>"




text \<open>
  A first start: the legacy directory \<open>/h/.electron-cash\<close> with a lock file, a cached
  exchange-rate file and a config, no user directory yet, and a file \<open>rates.json\<close> of
  another program in the working directory \<open>/tmp\<close>.
\<close>

definition world_first_start :: world where
  "world_first_start =
     \<lparr> files =
         [(''/h'', Directory),
          (''/h/.electron-cash'', Directory),
          (''/h/.electron-cash/daemon'', RegFile []),
          (''/h/.electron-cash/cache'', Directory),
          (''/h/.electron-cash/cache/rates.json'', RegFile []),
          (''/h/.electron-cash/config'',
             RegFile [(''fee_per_kb'', VInt 1000), (''server'', VStr ''a.b:1:s''),
                      (''rpcuser'', VStr ''u''),
                      (''recently_open'', VList [VStr ''/h/.electron-cash/wallets/a''])]),
          (''/tmp'', Directory),
          (''/tmp/rates.json'', RegFile [])],
       locked = [] \<rparr>"

text \<open>The same start when \<open>/h/.electrum-abc\<close> is taken by a regular file: the copy fails.\<close>

definition world_dest_is_file :: world where
  "world_dest_is_file =
     \<lparr> files =
         [(''/h'', Directory),
          (''/h/.electron-cash'', Directory),
          (''/h/.electron-cash/cache'', Directory),
          (''/h/.electron-cash/cache/rates.json'', RegFile []),
          (''/h/.electrum-abc'', RegFile [])],
       locked = [] \<rparr>"

text \<open>A user directory that holds the given config.\<close>

definition world_with_config :: "config \<Rightarrow> world" where
  "world_with_config config =
     \<lparr> files = [(''/h'', Directory), (''/h/.electrum-abc'', Directory),
                (''/h/.electrum-abc/config'', RegFile config)],
       locked = [] \<rparr>"

text \<open>A file that the system refuses to remove.\<close>

definition world_locked_file :: world where
  "world_locked_file =
     \<lparr> files = [(''/h'', Directory), (''/h/daemon'', RegFile [])],
       locked = [''/h/daemon''] \<rparr>"


section \<open>Dictionaries and version tuples\<close>

lemma delete_absent: "k \<notin> fst ` set (AList.delete k al)"
  by (rule AList.delete_notin_dom)

lemma delete_keeps_absent: "k \<notin> fst ` set al \<Longrightarrow> k \<notin> fst ` set (AList.delete k' al)"
  using AList.dom_delete_subset [of k' al] by blast

lemma map_of_delete_other: "k \<noteq> k' \<Longrightarrow> map_of (AList.delete k' al) k = map_of al k"
  by simp

lemma map_of_update_same: "map_of (AList.update k v al) k = Some v"
  by (simp add: AList.update_conv')

lemma map_of_update_other: "k \<noteq> k' \<Longrightarrow> map_of (AList.update k' v al) k = map_of al k"
  by (simp add: AList.update_conv')

lemma tuple_ge_ints: "tuple_ge (map VInt m) v = Inr (int_tuple_ge m v)"
  by (induction m v rule: int_tuple_ge.induct) auto

lemma int_tuple_ge_total: "\<not> int_tuple_ge a b \<Longrightarrow> int_tuple_ge b a"
  by (induction a b rule: int_tuple_ge.induct) (auto split: if_splits)

lemma int_tuple_ge_refl: "int_tuple_ge a a"
  by (induction a) auto

text \<open>
  \<open>int_tuple_ge\<close> is the lexicographic order of the library: a version \<open>a\<close> is strictly
  less than a version \<open>b\<close>, written \<open>\<not> int_tuple_ge a b\<close> below, exactly when the pair
  is in \<open>lexord\<close> of \<open><\<close>.
\<close>

lemma int_tuple_lt_lexord:
  "\<not> int_tuple_ge a b \<longleftrightarrow> (a, b) \<in> lexord {(x, y). x < y}"
proof (induction a b rule: int_tuple_ge.induct)
  case (4 x xs y ys)
  then show ?case
    by auto
qed auto

section \<open>replace_src_dest_in_config\<close>

lemma replace_scan_no_occurrence: "\<not> occurs old s \<Longrightarrow> replace_scan old new s = s"
  by (induction s) auto

lemma py_replace_no_occurrence: "\<not> occurs old s \<Longrightarrow> py_replace s old new = s"
proof -
  assume a: "\<not> occurs old s"
  then have "old \<noteq> []" by (cases s) auto
  with a show ?thesis by (simp add: py_replace_def replace_scan_no_occurrence)
qed

lemma py_replace_prefix:
  assumes "startswith s old" and "old \<noteq> []"
  shows "py_replace s old new = new @ py_replace (drop (length old) s) old new"
proof -
  from assms obtain c cs where s: "s = c # cs"
    by (cases s) (auto simp: startswith_def)
  have "drop (length old - 1) cs = drop (length old) s"
    using assms(2) s by (cases old) auto
  with assms s show ?thesis
    by (simp add: py_replace_def startswith_def)
qed

lemma py_replace_startswith: "startswith s old \<Longrightarrow> startswith (py_replace s old new) new"
  by (cases "old = []") (auto simp: py_replace_prefix, auto simp: startswith_def py_replace_def)

lemma update_in_place:
  "k \<notin> fst ` set pre \<Longrightarrow> AList.update k x (pre @ (k, v) # rest) = pre @ (k, x) # rest"
  by (induction pre) auto

lemma first_loop_aux:
  "distinct (map fst (pre @ xs)) \<Longrightarrow>
   fold (\<lambda>(k, v) c.
          (case v of
             VStr s \<Rightarrow>
               (let norm_path = normcase sys s in
                if startswith norm_path (normcase sys src)
                then AList.update k (VStr (py_replace norm_path (normcase sys src) (normcase sys dest))) c
                else c)
           | _ \<Rightarrow> c)) xs (pre @ xs)
   = pre @ map (\<lambda>(k, v). (k, rewrite_value sys src dest v)) xs"
proof (induction xs arbitrary: pre)
  case Nil
  then show ?case by simp
next
  case (Cons x xs)
  obtain k v where x: "x = (k, v)" by (cases x)
  from Cons.prems x have k: "k \<notin> fst ` set pre" by auto
  have d: "distinct (map fst ((pre @ [(k, rewrite_value sys src dest v)]) @ xs))"
    using Cons.prems x by auto
  have step: "(case v of
             VStr s \<Rightarrow>
               (let norm_path = normcase sys s in
                if startswith norm_path (normcase sys src)
                then AList.update k (VStr (py_replace norm_path (normcase sys src) (normcase sys dest))) (pre @ (k, v) # xs)
                else (pre @ (k, v) # xs))
           | _ \<Rightarrow> (pre @ (k, v) # xs)) = (pre @ [(k, rewrite_value sys src dest v)]) @ xs"
    using k by (auto simp: rewrite_value_def Let_def update_in_place split: pyval.splits)
  show ?case
    using Cons.IH [OF d] by (simp add: x step)
qed

lemma first_loop:
  "distinct (map fst config) \<Longrightarrow>
   fold (\<lambda>(k, v) c.
          (case v of
             VStr s \<Rightarrow>
               (let norm_path = normcase sys s in
                if startswith norm_path (normcase sys src)
                then AList.update k (VStr (py_replace norm_path (normcase sys src) (normcase sys dest))) c
                else c)
           | _ \<Rightarrow> c)) config config
   = map (\<lambda>(k, v). (k, rewrite_value sys src dest v)) config"
  using first_loop_aux [of "[]" config sys src dest] by simp

lemma adjust_wallets_strings:
  "idx \<le> length ws \<Longrightarrow>
   adjust_wallets sys ns nd idx (map VStr ws)
     = Inr (map VStr (take idx ws @ map (\<lambda>s. py_replace (normcase sys s) ns nd) (drop idx ws)))"
proof (induction "length ws - idx" arbitrary: idx ws)
  case 0
  then show ?case by (simp add: adjust_wallets.simps [of _ _ _ idx])
next
  case (Suc n)
  then have lt: "idx < length ws" by simp
  let ?ws' = "ws[idx := py_replace (normcase sys (ws ! idx)) ns nd]"
  have upd: "(map VStr ws)[idx := VStr (py_replace (normcase sys (ws ! idx)) ns nd)] = map VStr ?ws'"
    by (simp add: map_update)
  have "adjust_wallets sys ns nd idx (map VStr ws) = adjust_wallets sys ns nd (Suc idx) (map VStr ?ws')"
    using lt by (subst adjust_wallets.simps) (simp add: upd)
  also have "\<dots> = Inr (map VStr (take (Suc idx) ?ws' @ map (\<lambda>s. py_replace (normcase sys s) ns nd) (drop (Suc idx) ?ws')))"
    using Suc lt by (intro Suc.hyps(1)) auto
  also have "take (Suc idx) ?ws' = take idx ws @ [py_replace (normcase sys (ws ! idx)) ns nd]"
    using lt by (simp add: take_Suc_conv_app_nth)
  also have "drop (Suc idx) ?ws' = drop (Suc idx) ws"
    by simp
  finally show ?case
    using lt by (simp add: Cons_nth_drop_Suc [symmetric])
qed

lemma map_of_rewritten:
  "map_of (map (\<lambda>(k, v). (k, f v)) config) k = map_option f (map_of config k)"
  by (induction config) auto

lemma replace_src_dest_in_config_no_recent:
  assumes "distinct (map fst config)" and "map_of config ''recently_open'' = None"
  shows "replace_src_dest_in_config sys src dest config
           = Inr (map (\<lambda>(k, v). (k, rewrite_value sys src dest v)) config)"
  using assms
  by (simp add: replace_src_dest_in_config_def Let_def first_loop map_of_rewritten)

lemma replace_src_dest_in_config_recent:
  assumes "distinct (map fst config)" and "map_of config ''recently_open'' = Some (VList (map VStr ws))"
  shows "replace_src_dest_in_config sys src dest config
           = Inr (AList.update ''recently_open''
                    (VList (map VStr (map (\<lambda>s. py_replace (normcase sys s) (normcase sys src) (normcase sys dest)) ws)))
                    (map (\<lambda>(k, v). (k, rewrite_value sys src dest v)) config))"
  using assms adjust_wallets_strings [of 0 ws sys "normcase sys src" "normcase sys dest"]
  by (simp add: replace_src_dest_in_config_def Let_def first_loop map_of_rewritten rewrite_value_def)

lemma keys_rewritten: "map fst (map (\<lambda>(k, v). (k, f v)) config) = map fst config"
  by (induction config) auto

lemma keys_update_present: "map_of al k \<noteq> None \<Longrightarrow> map fst (AList.update k v al) = map fst al"
  by (induction al) auto

text \<open>
  C1 (as amended). Let the dictionary have distinct keys and let \<open>recently_open\<close>, when
  present, be a list of strings. Then \<open>replace_src_dest_in_config\<close> returns normally,
  with the same keys in the same order, and:
  every string value under another key whose case-normalized form begins with the
  case-normalized \<open>src\<close> becomes that form with every occurrence of the case-normalized
  \<open>src\<close> replaced by the case-normalized \<open>dest\<close>; every other value under another key
  is left exactly as it was; every entry of \<open>recently_open\<close> whose case-normalized
  form begins with \<open>src\<close> is rewritten in the same way, and one in which \<open>src\<close> does
  not occur becomes its case-normalized form. A rewritten string begins with \<open>dest\<close>,
  and it is \<open>dest\<close> followed by the rest of the case-normalized string when \<open>src\<close>
  is not empty and does not occur in that rest.
\<close>

theorem replace_src_dest_in_config_rewrites:
  assumes "distinct (map fst config)"
    and "map_of config ''recently_open'' = None
         \<or> (\<exists>ws. map_of config ''recently_open'' = Some (VList (map VStr ws)))"
  shows "\<exists>config'. replace_src_dest_in_config sys src dest config = Inr config'
      \<and> map fst config' = map fst config
      \<and> (\<forall>k v. k \<noteq> ''recently_open'' \<longrightarrow> map_of config k = Some v \<longrightarrow>
           map_of config' k = Some
             (case v of
                VStr s \<Rightarrow>
                  if startswith (normcase sys s) (normcase sys src)
                  then VStr (py_replace (normcase sys s) (normcase sys src) (normcase sys dest))
                  else v
              | _ \<Rightarrow> v))
      \<and> (\<forall>ws. map_of config ''recently_open'' = Some (VList (map VStr ws)) \<longrightarrow>
           (\<exists>ws'. map_of config' ''recently_open'' = Some (VList (map VStr ws'))
              \<and> length ws' = length ws
              \<and> (\<forall>i<length ws.
                   (startswith (normcase sys (ws ! i)) (normcase sys src) \<longrightarrow>
                      ws' ! i = py_replace (normcase sys (ws ! i)) (normcase sys src) (normcase sys dest))
                 \<and> (\<not> occurs (normcase sys src) (normcase sys (ws ! i)) \<longrightarrow>
                      ws' ! i = normcase sys (ws ! i)))))
      \<and> (\<forall>s. startswith s (normcase sys src) \<longrightarrow>
             startswith (py_replace s (normcase sys src) (normcase sys dest)) (normcase sys dest)
           \<and> (normcase sys src \<noteq> [] \<longrightarrow>
                \<not> occurs (normcase sys src) (drop (length (normcase sys src)) s) \<longrightarrow>
                py_replace s (normcase sys src) (normcase sys dest)
                  = normcase sys dest @ drop (length (normcase sys src)) s))"
proof -
  let ?g = "\<lambda>(k, v). (k, rewrite_value sys src dest v)"
  let ?r = "\<lambda>s. py_replace (normcase sys s) (normcase sys src) (normcase sys dest)"
  have strings: "\<forall>s. startswith s (normcase sys src) \<longrightarrow>
             startswith (py_replace s (normcase sys src) (normcase sys dest)) (normcase sys dest)
           \<and> (normcase sys src \<noteq> [] \<longrightarrow>
                \<not> occurs (normcase sys src) (drop (length (normcase sys src)) s) \<longrightarrow>
                py_replace s (normcase sys src) (normcase sys dest)
                  = normcase sys dest @ drop (length (normcase sys src)) s)"
    by (auto simp: py_replace_startswith py_replace_prefix py_replace_no_occurrence)
  have others: "map_of (map ?g config) k = Some
             (case v of
                VStr s \<Rightarrow>
                  if startswith (normcase sys s) (normcase sys src)
                  then VStr (py_replace (normcase sys s) (normcase sys src) (normcase sys dest))
                  else v
              | _ \<Rightarrow> v)" if "map_of config k = Some v" for k v
    using that by (simp add: map_of_rewritten rewrite_value_def)
  from assms(2) show ?thesis
  proof
    assume none: "map_of config ''recently_open'' = None"
    have "replace_src_dest_in_config sys src dest config = Inr (map ?g config)"
      using assms(1) none by (rule replace_src_dest_in_config_no_recent)
    moreover have "map fst (map ?g config) = map fst config"
      by (rule keys_rewritten)
    ultimately show ?thesis
      using others none strings by (intro exI [of _ "map ?g config"]) simp
  next
    assume "\<exists>ws. map_of config ''recently_open'' = Some (VList (map VStr ws))"
    then obtain ws where ws: "map_of config ''recently_open'' = Some (VList (map VStr ws))"
      by blast
    let ?c = "AList.update ''recently_open'' (VList (map VStr (map ?r ws))) (map ?g config)"
    have res: "replace_src_dest_in_config sys src dest config = Inr ?c"
      using assms(1) ws by (rule replace_src_dest_in_config_recent)
    have keys: "map fst ?c = map fst config"
    proof -
      have "map_of (map ?g config) ''recently_open'' \<noteq> None"
        using ws by (simp add: map_of_rewritten)
      then have "map fst ?c = map fst (map ?g config)"
        by (rule keys_update_present)
      then show ?thesis
        by (simp only: keys_rewritten)
    qed
    have oth: "\<forall>k v. k \<noteq> ''recently_open'' \<longrightarrow> map_of config k = Some v \<longrightarrow>
           map_of ?c k = Some
             (case v of
                VStr s \<Rightarrow>
                  if startswith (normcase sys s) (normcase sys src)
                  then VStr (py_replace (normcase sys s) (normcase sys src) (normcase sys dest))
                  else v
              | _ \<Rightarrow> v)"
      using others by (simp add: map_of_update_other)
    have rec: "\<forall>ws0. map_of config ''recently_open'' = Some (VList (map VStr ws0)) \<longrightarrow>
           (\<exists>ws'. map_of ?c ''recently_open'' = Some (VList (map VStr ws'))
              \<and> length ws' = length ws0
              \<and> (\<forall>i<length ws0.
                   (startswith (normcase sys (ws0 ! i)) (normcase sys src) \<longrightarrow>
                      ws' ! i = py_replace (normcase sys (ws0 ! i)) (normcase sys src) (normcase sys dest))
                 \<and> (\<not> occurs (normcase sys src) (normcase sys (ws0 ! i)) \<longrightarrow>
                      ws' ! i = normcase sys (ws0 ! i))))"
    proof (intro allI impI)
      fix ws0
      assume "map_of config ''recently_open'' = Some (VList (map VStr ws0))"
      with ws have "map VStr ws0 = map VStr ws" by simp
      then have eq: "ws0 = ws"
        by (simp add: inj_on_def)
      show "\<exists>ws'. map_of ?c ''recently_open'' = Some (VList (map VStr ws'))
              \<and> length ws' = length ws0
              \<and> (\<forall>i<length ws0.
                   (startswith (normcase sys (ws0 ! i)) (normcase sys src) \<longrightarrow>
                      ws' ! i = py_replace (normcase sys (ws0 ! i)) (normcase sys src) (normcase sys dest))
                 \<and> (\<not> occurs (normcase sys src) (normcase sys (ws0 ! i)) \<longrightarrow>
                      ws' ! i = normcase sys (ws0 ! i)))"
        unfolding eq
        by (intro exI [of _ "map ?r ws"]) (simp add: map_of_update_same py_replace_no_occurrence)
    qed
    show ?thesis
      using res keys oth rec strings by (intro exI [of _ ?c]) blast
  qed
qed

theorem replace_src_dest_in_config_rewrites_witness:
  "distinct (map fst [(''wallet_path'', VStr ''/h/.electron-cash/wallets/a''),
                      (''gui'', VStr ''qt''),
                      (''recently_open'', VList (map VStr [''/h/.electron-cash/wallets/a'', ''/mnt/w'']))])
   \<and> replace_src_dest_in_config posix_sys ''/h/.electron-cash'' ''/h/.electrum-abc''
        [(''wallet_path'', VStr ''/h/.electron-cash/wallets/a''),
         (''gui'', VStr ''qt''),
         (''recently_open'', VList (map VStr [''/h/.electron-cash/wallets/a'', ''/mnt/w'']))]
       = Inr [(''wallet_path'', VStr ''/h/.electrum-abc/wallets/a''),
              (''gui'', VStr ''qt''),
              (''recently_open'', VList [VStr ''/h/.electrum-abc/wallets/a'', VStr ''/mnt/w''])]"
proof -
  let ?c = "[(''wallet_path'', VStr ''/h/.electron-cash/wallets/a''),
             (''gui'', VStr ''qt''),
             (''recently_open'', VList (map VStr [''/h/.electron-cash/wallets/a'', ''/mnt/w'']))]"
  have d: "distinct (map fst ?c)"
    by simp
  have r: "map_of ?c ''recently_open'' = None
           \<or> (\<exists>ws. map_of ?c ''recently_open'' = Some (VList (map VStr ws)))"
    by (rule disjI2, rule exI [of _ "[''/h/.electron-cash/wallets/a'', ''/mnt/w'']"]) simp
  obtain config' where
    res: "replace_src_dest_in_config posix_sys ''/h/.electron-cash'' ''/h/.electrum-abc'' ?c = Inr config'"
    and keys: "map fst config' = map fst ?c"
    using replace_src_dest_in_config_rewrites [OF d r, of posix_sys "''/h/.electron-cash''" "''/h/.electrum-abc''"]
    by blast
  have "replace_src_dest_in_config posix_sys ''/h/.electron-cash'' ''/h/.electrum-abc'' ?c
       = Inr [(''wallet_path'', VStr ''/h/.electrum-abc/wallets/a''),
              (''gui'', VStr ''qt''),
              (''recently_open'', VList [VStr ''/h/.electrum-abc/wallets/a'', VStr ''/mnt/w''])]"
    by code_simp
  with d res show ?thesis
    by simp
qed

text \<open>
  The claim as the specification states it fails on POSIX, where \<open>os.path.normcase\<close>
  returns its argument: an entry of \<open>recently_open\<close> that is not rooted at \<open>src\<close> but
  has \<open>src\<close> further inside is changed, and a rooted string value that has \<open>src\<close> again
  in its remainder does not keep that remainder.
\<close>

theorem replace_src_dest_in_config_counterexample:
  "replace_src_dest_in_config posix_sys ''/h/.electron-cash'' ''/h/.electrum-abc''
      [(''backup_wallet'', VStr ''/h/.electron-cash/old/h/.electron-cash/w''),
       (''recently_open'', VList [VStr ''/mnt/h/.electron-cash/wallets/a''])]
     = Inr [(''backup_wallet'', VStr ''/h/.electrum-abc/old/h/.electrum-abc/w''),
            (''recently_open'', VList [VStr ''/mnt/h/.electrum-abc/wallets/a''])]
   \<and> \<not> startswith (normcase posix_sys ''/mnt/h/.electron-cash/wallets/a'')
          (normcase posix_sys ''/h/.electron-cash'')
   \<and> ''/h/.electrum-abc/old/h/.electrum-abc/w''
        \<noteq> ''/h/.electrum-abc'' @ drop (length ''/h/.electron-cash'') ''/h/.electron-cash/old/h/.electron-cash/w''"
  by code_simp

section \<open>reset_server_config\<close>

text \<open>
  C3. For every config dictionary, after \<open>reset_server_config\<close> the dictionary maps
  \<open>whitelist_servers_only\<close> and \<open>auto_connect\<close> to the compiled-in defaults and \<open>server\<close>
  to the empty string, and the keys \<open>server_whitelist_added\<close>, \<open>server_whitelist_removed\<close>,
  \<open>server_blacklist\<close>, \<open>rpcuser\<close> and \<open>rpcpassword\<close> are absent.
\<close>

theorem reset_server_config_invariant:
  "map_of (reset_server_config sys config) ''whitelist_servers_only''
     = Some (VBool (DEFAULT_WHITELIST_SERVERS_ONLY sys))
   \<and> map_of (reset_server_config sys config) ''auto_connect''
     = Some (VBool (DEFAULT_AUTO_CONNECT sys))
   \<and> map_of (reset_server_config sys config) ''server'' = Some (VStr [])
   \<and> ''server_whitelist_added'' \<notin> fst ` set (reset_server_config sys config)
   \<and> ''server_whitelist_removed'' \<notin> fst ` set (reset_server_config sys config)
   \<and> ''server_blacklist'' \<notin> fst ` set (reset_server_config sys config)
   \<and> ''rpcuser'' \<notin> fst ` set (reset_server_config sys config)
   \<and> ''rpcpassword'' \<notin> fst ` set (reset_server_config sys config)"
  unfolding reset_server_config_def Let_def
  by (intro conjI)
     (simp_all only: map_of_delete_other map_of_update_same map_of_update_other
        delete_absent delete_keeps_absent list.inject list.distinct char.inject simp_thms)

section \<open>safe_rm\<close>

text \<open>
  C9. For every path (one that does not exist, a file, a directory), and also when the
  removal of the file or of the directory tree fails with \<open>OSError\<close> or \<open>shutil.Error\<close>,
  \<open>safe_rm\<close> returns normally; the file system is left as the removal left it, and
  untouched when the path is neither a file nor a directory.
\<close>

theorem safe_rm_never_raises:
  assumes "isfile sys path w \<Longrightarrow> fst (remove sys path w) \<in> {None, Some OSError, Some ShutilError}"
    and "\<not> isfile sys path w \<Longrightarrow> isdir sys path w \<Longrightarrow>
           fst (rmtree sys path w) \<in> {None, Some OSError, Some ShutilError}"
  shows "safe_rm sys path w =
           (Inr (), if isfile sys path w then snd (remove sys path w)
                    else if isdir sys path w then snd (rmtree sys path w)
                    else w)"
proof (cases "isfile sys path w")
  case True
  with assms(1) show ?thesis
    by (cases "remove sys path w") (auto simp: safe_rm_def call_def)
next
  case nofile: False
  show ?thesis
  proof (cases "isdir sys path w")
    case True
    with nofile assms(2) show ?thesis
      by (cases "rmtree sys path w") (auto simp: safe_rm_def call_def)
  next
    case False
    with nofile show ?thesis
      by (simp add: safe_rm_def)
  qed
qed

theorem safe_rm_never_raises_witness:
  "isfile posix_sys ''/h/daemon'' world_locked_file
   \<and> remove posix_sys ''/h/daemon'' world_locked_file = (Some OSError, world_locked_file)
   \<and> safe_rm posix_sys ''/h/daemon'' world_locked_file = (Inr (), world_locked_file)"
proof -
  have f: "isfile posix_sys ''/h/daemon'' world_locked_file"
    by code_simp
  have r: "remove posix_sys ''/h/daemon'' world_locked_file = (Some OSError, world_locked_file)"
    by code_simp
  have "safe_rm posix_sys ''/h/daemon'' world_locked_file =
          (Inr (), if isfile posix_sys ''/h/daemon'' world_locked_file
                   then snd (remove posix_sys ''/h/daemon'' world_locked_file)
                   else if isdir posix_sys ''/h/daemon'' world_locked_file
                        then snd (rmtree posix_sys ''/h/daemon'' world_locked_file)
                        else world_locked_file)"
    by (rule safe_rm_never_raises) (simp_all add: f r)
  with f r show ?thesis
    by simp
qed

section \<open>migrate_data_from_ec\<close>

lemma ec_dir_exists_Some:
  "does_ec_user_dir_exist sys w \<Longrightarrow> \<exists>src. get_ec_user_dir sys = Some src \<and> isdir sys src w"
  by (auto simp: does_ec_user_dir_exist_def split: option.splits)

text \<open>
  C8. When the pipeline is triggered and the recursive copy of the legacy directory
  raises, \<open>migrate_data_from_ec\<close> raises the same exception and the file system is as
  the failed copy left it: no later step has run.
\<close>

theorem copy_failure_propagates:
  assumes "does_ec_user_dir_exist sys w" and "\<not> does_user_dir_exist sys w"
    and "get_ec_user_dir sys = Some src" and "get_user_dir sys = Some dest"
    and "copytree sys src dest w = (Some e, w')"
  shows "migrate_data_from_ec sys w = (Inl e, w')"
  using assms by (simp add: migrate_data_from_ec_def then_do_def call_def)

theorem copy_failure_propagates_witness:
  "does_ec_user_dir_exist posix_sys world_dest_is_file
   \<and> \<not> does_user_dir_exist posix_sys world_dest_is_file
   \<and> copytree posix_sys ''/h/.electron-cash'' ''/h/.electrum-abc'' world_dest_is_file
       = (Some OSError, world_dest_is_file)
   \<and> migrate_data_from_ec posix_sys world_dest_is_file = (Inl OSError, world_dest_is_file)"
proof -
  have h1: "does_ec_user_dir_exist posix_sys world_dest_is_file" by code_simp
  have h2: "\<not> does_user_dir_exist posix_sys world_dest_is_file" by code_simp
  have h3: "get_ec_user_dir posix_sys = Some ''/h/.electron-cash''" by code_simp
  have h4: "get_user_dir posix_sys = Some ''/h/.electrum-abc''" by (simp add: posix_sys_def)
  have h5: "copytree posix_sys ''/h/.electron-cash'' ''/h/.electrum-abc'' world_dest_is_file
              = (Some OSError, world_dest_is_file)" by code_simp
  show ?thesis
    using h1 h2 h5 copy_failure_propagates [OF h1 h2 h3 h4 h5] by simp
qed

text \<open>
  C2. The loop over the names listed in the cache directory of the destination passes
  each bare name to \<open>safe_rm\<close>, which resolves it against the working directory. On the
  first start above, the cached file \<open>/h/.electrum-abc/cache/rates.json\<close> is still there
  after the pipeline has returned, and the file \<open>/tmp/rates.json\<close> is gone.
\<close>

theorem cache_purge_uses_bare_filename:
  "fst (migrate_data_from_ec posix_sys world_first_start) = Inr ()
   \<and> listdir posix_sys ''/h/.electrum-abc/cache''
        (snd (migrate_data_from_ec posix_sys world_first_start)) = Inr [''rates.json'']
   \<and> isfile posix_sys ''/h/.electrum-abc/cache/rates.json''
        (snd (migrate_data_from_ec posix_sys world_first_start))
   \<and> isfile posix_sys ''/tmp/rates.json'' world_first_start
   \<and> \<not> isfile posix_sys ''/tmp/rates.json''
          (snd (migrate_data_from_ec posix_sys world_first_start))"
  by code_simp

























































































section \<open>update_config\<close>

text \<open>
  C10. For every stored config whose version marker is a tuple of integers strictly
  less than the running version and which maps \<open>cashfusion_server\<close> to an empty sequence
  (an empty list or an empty string), \<open>update_config\<close> raises IndexError at the subscript
  \<open>[0]\<close>, before anything is saved.
\<close>

theorem update_config_empty_fusion_server_fails:
  assumes "map_of (read_user_config sys (get_user_dir sys) w) ''cashfusion_server'' = Some server"
    and "server = VList [] \<or> server = VStr []"
    and "config_version (read_user_config sys (get_user_dir sys) w) = VList (map VInt m)"
    and "\<not> int_tuple_ge m (VERSION_TUPLE sys)"
  shows "update_config sys w = (Inl IndexError, w)"
proof -
  let ?c = "read_user_config sys (get_user_dir sys) w"
  have ne: "?c \<noteq> []"
    using assms(1) by auto
  have fx: "fst (update_config_fixups sys ?c) = Inl IndexError"
    using assms(1,2) by (auto simp: update_config_fixups_def Let_def AList.update_conv')
  show ?thesis
    using ne assms(3,4) fx
    by (cases "update_config_fixups sys ?c") (simp add: update_config_def Let_def tuple_ge_ints)
qed

theorem update_config_empty_fusion_server_fails_witness:
  "update_config posix_sys (world_with_config [(''cashfusion_server'', VList [])])
     = (Inl IndexError, world_with_config [(''cashfusion_server'', VList [])])"
proof -
  let ?w = "world_with_config [(''cashfusion_server'', VList [])]"
  have h1: "map_of (read_user_config posix_sys (get_user_dir posix_sys) ?w) ''cashfusion_server''
              = Some (VList [])" by code_simp
  have h3: "config_version (read_user_config posix_sys (get_user_dir posix_sys) ?w)
              = VList (map VInt [4, 3, 1])" by code_simp
  have h4: "\<not> int_tuple_ge [4, 3, 1] (VERSION_TUPLE posix_sys)" by code_simp
  show ?thesis
    using update_config_empty_fusion_server_fails [OF h1 _ h3 h4] by simp
qed

lemma in_OLD_DEFAULT_FEES:
  "in_int_list v OLD_DEFAULT_FEES \<longleftrightarrow> v = VInt 80000 \<or> v = VInt 10000"
  by (cases v) (auto simp: OLD_DEFAULT_FEES_def)

lemma update_config_no_config:
  "read_user_config sys (get_user_dir sys) w = [] \<Longrightarrow> update_config sys w = (Inr (), w)"
  by (simp add: update_config_def)

lemma update_config_up_to_date:
  assumes "config_version (read_user_config sys (get_user_dir sys) w) = VList (map VInt m)"
    and "int_tuple_ge m (VERSION_TUPLE sys)"
  shows "update_config sys w = (Inr (), w)"
  using assms by (simp add: update_config_def Let_def tuple_ge_ints)

text \<open>
  Past the version check, \<open>update_config\<close> either leaves with the exception of a fixup,
  the file system untouched, or saves the dictionary of the fixups with the running
  version stamped on it.
\<close>

lemma update_config_outdated:
  assumes "read_user_config sys (get_user_dir sys) w = config" and "config \<noteq> []"
    and "config_version config = VList (map VInt m)"
    and "\<not> int_tuple_ge m (VERSION_TUPLE sys)"
  shows "update_config sys w =
           (case fst (update_config_fixups sys config) of
              Inl e \<Rightarrow> (Inl e, w)
            | Inr u \<Rightarrow>
                (Inr (), save_user_config sys
                           (AList.update ''latest_version_used''
                              (VList (map VInt (VERSION_TUPLE sys)))
                              (snd (update_config_fixups sys config)))
                           (get_user_dir sys) w))"
  using assms
  by (cases "update_config_fixups sys config")
     (simp add: update_config_def Let_def tuple_ge_ints split: sum.splits)

lemma fixups_fee:
  "map_of (snd (update_config_fixups sys config)) ''fee_per_kb'' =
     (if map_of config ''fee_per_kb'' = Some (VInt 80000)
         \<or> map_of config ''fee_per_kb'' = Some (VInt 10000)
      then Some (VInt (default_fee_rate sys)) else map_of config ''fee_per_kb'')"
  by (auto simp: update_config_fixups_def Let_def in_OLD_DEFAULT_FEES
        map_of_update_same map_of_update_other
      split: option.splits sum.splits list.splits)

lemma config_version_stamped:
  "config_version (AList.update ''latest_version_used'' v c) = v"
  by (simp add: config_version_def map_of_update_same)

lemma update_config_step:
  assumes rt: "\<And>c w. read_user_config sys (get_user_dir sys)
                        (save_user_config sys c (get_user_dir sys) w) = c"
    and m: "config_version (read_user_config sys (get_user_dir sys) w) = VList (map VInt m)"
  shows "\<exists>m'. config_version (read_user_config sys (get_user_dir sys) (snd (update_config sys w)))
                 = VList (map VInt m')
           \<and> int_tuple_ge m' m
           \<and> (int_tuple_ge m (VERSION_TUPLE sys) \<longrightarrow> update_config sys w = (Inr (), w))"
proof (cases "read_user_config sys (get_user_dir sys) w = [] \<or> int_tuple_ge m (VERSION_TUPLE sys)")
  case True
  then have "update_config sys w = (Inr (), w)"
    using update_config_no_config [of sys w] update_config_up_to_date [OF m] by auto
  then show ?thesis
    using m int_tuple_ge_refl by auto
next
  case False
  let ?c = "read_user_config sys (get_user_dir sys) w"
  have eq: "update_config sys w =
           (case fst (update_config_fixups sys ?c) of
              Inl e \<Rightarrow> (Inl e, w)
            | Inr u \<Rightarrow>
                (Inr (), save_user_config sys
                           (AList.update ''latest_version_used''
                              (VList (map VInt (VERSION_TUPLE sys)))
                              (snd (update_config_fixups sys ?c)))
                           (get_user_dir sys) w))"
    using False m by (intro update_config_outdated) auto
  show ?thesis
  proof (cases "fst (update_config_fixups sys ?c)")
    case (Inl e)
    with eq have "update_config sys w = (Inl e, w)"
      by simp
    then show ?thesis
      using m False int_tuple_ge_refl by auto
  next
    case (Inr u)
    with eq have "config_version (read_user_config sys (get_user_dir sys) (snd (update_config sys w)))
        = VList (map VInt (VERSION_TUPLE sys))"
      by (simp add: rt config_version_stamped)
    moreover have "int_tuple_ge (VERSION_TUPLE sys) m"
      using False int_tuple_ge_total by blast
    ultimately show ?thesis
      using False by blast
  qed
qed

lemma sim_read_after_save:
  "sim_read_user_config cwd (Some d) (sim_save_user_config cwd c (Some d) w) = c"
  by (simp add: sim_read_user_config_def sim_save_user_config_def map_of_update_same)

text \<open>
  C4. Let the config file give back what was saved to it, and let the stored version
  marker be a tuple of integers (or absent, which counts as 4.3.1). Then across
  successive calls of \<open>update_config\<close> the stored marker stays a tuple of integers and
  never decreases from one call to the next; and when the stored marker is greater than
  or equal to the running version, the next call returns without changing anything.
\<close>

theorem version_marker_monotone:
  assumes rt: "\<And>c w. read_user_config sys (get_user_dir sys)
                        (save_user_config sys c (get_user_dir sys) w) = c"
    and m: "config_version (read_user_config sys (get_user_dir sys) w) = VList (map VInt m)"
  shows "\<exists>a b. config_version (read_user_config sys (get_user_dir sys) (after_runs sys n w))
                  = VList (map VInt a)
           \<and> config_version (read_user_config sys (get_user_dir sys) (after_runs sys (Suc n) w))
                  = VList (map VInt b)
           \<and> int_tuple_ge b a
           \<and> (int_tuple_ge a (VERSION_TUPLE sys) \<longrightarrow>
                update_config sys (after_runs sys n w) = (Inr (), after_runs sys n w))"
proof -
  have "\<exists>a. config_version (read_user_config sys (get_user_dir sys) (after_runs sys n w))
              = VList (map VInt a)"
  proof (induction n)
    case 0
    then show ?case
      using m by (auto simp: after_runs_def)
  next
    case (Suc n)
    then obtain a where
      "config_version (read_user_config sys (get_user_dir sys) (after_runs sys n w))
         = VList (map VInt a)"
      by blast
    from update_config_step [OF rt this] show ?case
      by (auto simp: after_runs_def)
  qed
  then obtain a where
    a: "config_version (read_user_config sys (get_user_dir sys) (after_runs sys n w))
          = VList (map VInt a)"
    by blast
  from update_config_step [OF rt a] a show ?thesis
    by (auto simp: after_runs_def)
qed

theorem version_marker_monotone_witness:
  "config_version (read_user_config posix_sys (get_user_dir posix_sys)
       (world_with_config [(''fee_per_kb'', VInt 80000)])) = VList (map VInt [4, 3, 1])
   \<and> config_version (read_user_config posix_sys (get_user_dir posix_sys)
       (after_runs posix_sys (Suc 0) (world_with_config [(''fee_per_kb'', VInt 80000)])))
       = VList (map VInt [4, 3, 3])
   \<and> int_tuple_ge [4, 3, 3] (VERSION_TUPLE posix_sys)
   \<and> update_config posix_sys
        (after_runs posix_sys (Suc 0) (world_with_config [(''fee_per_kb'', VInt 80000)]))
       = (Inr (), after_runs posix_sys (Suc 0) (world_with_config [(''fee_per_kb'', VInt 80000)]))"
proof -
  let ?w = "world_with_config [(''fee_per_kb'', VInt 80000)]"
  have rt: "\<And>c w. read_user_config posix_sys (get_user_dir posix_sys)
                     (save_user_config posix_sys c (get_user_dir posix_sys) w) = c"
    by (simp add: posix_sys_def sim_read_after_save)
  have m: "config_version (read_user_config posix_sys (get_user_dir posix_sys) ?w)
             = VList (map VInt [4, 3, 1])"
    by code_simp
  have one: "config_version (read_user_config posix_sys (get_user_dir posix_sys)
               (after_runs posix_sys (Suc 0) ?w)) = VList (map VInt [4, 3, 3])"
    by code_simp
  have ge: "int_tuple_ge [4, 3, 3] (VERSION_TUPLE posix_sys)"
    by code_simp
  obtain a b where
    a: "config_version (read_user_config posix_sys (get_user_dir posix_sys)
          (after_runs posix_sys (Suc 0) ?w)) = VList (map VInt a)"
    and stop: "int_tuple_ge a (VERSION_TUPLE posix_sys) \<longrightarrow>
          update_config posix_sys (after_runs posix_sys (Suc 0) ?w)
            = (Inr (), after_runs posix_sys (Suc 0) ?w)"
    using version_marker_monotone [OF rt m, of "Suc 0"] by blast
  from a one have "a = [4, 3, 3]"
    by (auto simp: map_eq_Cons_conv)
  with stop ge m one show ?thesis
    by simp
qed

lemma fixups_return:
  assumes "DEFAULT_SERVERS sys \<noteq> []"
    and "map_of config ''cashfusion_server'' = None
         \<or> (\<exists>x xs. map_of config ''cashfusion_server'' = Some (VList (x # xs)))
         \<or> (\<exists>c cs. map_of config ''cashfusion_server'' = Some (VStr (c # cs)))"
  shows "fst (update_config_fixups sys config) = Inr ()"
  using assms
  by (cases "DEFAULT_SERVERS sys")
     (auto simp: update_config_fixups_def Let_def map_of_update_other)

lemma fixups_nothing_to_fix:
  assumes "map_of config ''fee_per_kb'' \<noteq> Some (VInt 80000)"
    and "map_of config ''fee_per_kb'' \<noteq> Some (VInt 10000)"
    and "\<forall>server host. map_of config ''cashfusion_server'' = Some server \<longrightarrow>
           subscript0 server = Inr host \<longrightarrow> \<not> in_str_list host INVALID_FUSION_HOSTS"
  shows "snd (update_config_fixups sys config) = config"
  using assms
  by (auto simp: update_config_fixups_def Let_def in_OLD_DEFAULT_FEES
           split: option.splits sum.splits list.splits)

text \<open>
  C6 (as amended). Let the stored config have a version marker strictly less than the
  running version, let \<open>cashfusion_server\<close>, when present, be a list or a string that
  is not empty, and let the list of default fusion servers not be empty. Then
  \<open>update_config\<close> returns normally, and in the config it saves \<open>fee_per_kb\<close> is the
  current default fee rate when the stored value is 80000 or 10000, and what was
  stored (also the absence of the key) otherwise.
\<close>

theorem fee_fixup_boundary:
  assumes "read_user_config sys (get_user_dir sys) w = config" and "config \<noteq> []"
    and "config_version config = VList (map VInt m)"
    and "\<not> int_tuple_ge m (VERSION_TUPLE sys)"
    and "DEFAULT_SERVERS sys \<noteq> []"
    and "map_of config ''cashfusion_server'' = None
         \<or> (\<exists>x xs. map_of config ''cashfusion_server'' = Some (VList (x # xs)))
         \<or> (\<exists>c cs. map_of config ''cashfusion_server'' = Some (VStr (c # cs)))"
  shows "\<exists>saved. update_config sys w = (Inr (), save_user_config sys saved (get_user_dir sys) w)
           \<and> map_of saved ''fee_per_kb'' =
               (if map_of config ''fee_per_kb'' = Some (VInt 80000)
                   \<or> map_of config ''fee_per_kb'' = Some (VInt 10000)
                then Some (VInt (default_fee_rate sys)) else map_of config ''fee_per_kb'')"
proof -
  let ?saved = "AList.update ''latest_version_used'' (VList (map VInt (VERSION_TUPLE sys)))
                  (snd (update_config_fixups sys config))"
  have "fst (update_config_fixups sys config) = Inr ()"
    using assms(5,6) by (rule fixups_return)
  then have "update_config sys w = (Inr (), save_user_config sys ?saved (get_user_dir sys) w)"
    using update_config_outdated [OF assms(1-4)] by simp
  moreover have "map_of ?saved ''fee_per_kb''
                   = map_of (snd (update_config_fixups sys config)) ''fee_per_kb''"
    by (simp add: map_of_update_other)
  then have "map_of ?saved ''fee_per_kb'' =
               (if map_of config ''fee_per_kb'' = Some (VInt 80000)
                   \<or> map_of config ''fee_per_kb'' = Some (VInt 10000)
                then Some (VInt (default_fee_rate sys)) else map_of config ''fee_per_kb'')"
    by (simp only: fixups_fee)
  ultimately show ?thesis
    by blast
qed

theorem fee_fixup_boundary_witness:
  "read_user_config posix_sys (get_user_dir posix_sys)
       (world_with_config
          [(''fee_per_kb'', VInt 80000),
           (''cashfusion_server'', VList [VStr ''fusion.example.org'', VInt 8787, VBool False])])
     = [(''fee_per_kb'', VInt 80000),
        (''cashfusion_server'', VList [VStr ''fusion.example.org'', VInt 8787, VBool False])]
   \<and> config_version
        [(''fee_per_kb'', VInt 80000),
         (''cashfusion_server'', VList [VStr ''fusion.example.org'', VInt 8787, VBool False])]
       = VList (map VInt [4, 3, 1])
   \<and> \<not> int_tuple_ge [4, 3, 1] (VERSION_TUPLE posix_sys)
   \<and> DEFAULT_SERVERS posix_sys \<noteq> []
   \<and> (\<exists>saved. update_config posix_sys
                 (world_with_config
                    [(''fee_per_kb'', VInt 80000),
                     (''cashfusion_server'',
                        VList [VStr ''fusion.example.org'', VInt 8787, VBool False])])
                 = (Inr (), save_user_config posix_sys saved (get_user_dir posix_sys)
                      (world_with_config
                         [(''fee_per_kb'', VInt 80000),
                          (''cashfusion_server'',
                             VList [VStr ''fusion.example.org'', VInt 8787, VBool False])]))
        \<and> map_of saved ''fee_per_kb'' = Some (VInt 5000))"
proof -
  let ?c = "[(''fee_per_kb'', VInt 80000),
             (''cashfusion_server'', VList [VStr ''fusion.example.org'', VInt 8787, VBool False])]"
  have h1: "read_user_config posix_sys (get_user_dir posix_sys) (world_with_config ?c) = ?c"
    by code_simp
  have h2: "?c \<noteq> []"
    by simp
  have h3: "config_version ?c = VList (map VInt [4, 3, 1])"
    by code_simp
  have h4: "\<not> int_tuple_ge [4, 3, 1] (VERSION_TUPLE posix_sys)"
    by code_simp
  have h5: "DEFAULT_SERVERS posix_sys \<noteq> []"
    by (simp add: posix_sys_def)
  have h6: "map_of ?c ''cashfusion_server'' = None
         \<or> (\<exists>x xs. map_of ?c ''cashfusion_server'' = Some (VList (x # xs)))
         \<or> (\<exists>c cs. map_of ?c ''cashfusion_server'' = Some (VStr (c # cs)))"
    by simp
  have d: "default_fee_rate posix_sys = 5000"
    by (simp add: posix_sys_def)
  have fee: "map_of ?c ''fee_per_kb'' = Some (VInt 80000)"
    by simp
  from fee_fixup_boundary [OF h1 h2 h3 h4 h5 h6]
  have "\<exists>saved. update_config posix_sys (world_with_config ?c)
                 = (Inr (), save_user_config posix_sys saved (get_user_dir posix_sys)
                              (world_with_config ?c))
        \<and> map_of saved ''fee_per_kb'' = Some (VInt 5000)"
    by (simp only: fee d simp_thms if_True)
  with h1 h3 h4 h5 show ?thesis
    by (intro conjI)
qed

text \<open>
  Without the condition on \<open>cashfusion_server\<close> the stored fee is not always replaced:
  for a stored config of version 4.3.1 with the fee 80000 and an empty list as
  \<open>cashfusion_server\<close>, \<open>update_config\<close> raises IndexError at the subscript \<open>[0]\<close>
  after the fee fixup and before the save; the stored fee is still 80000.
\<close>

theorem fee_fixup_lost_when_fusion_lookup_raises:
  "update_config posix_sys
       (world_with_config [(''fee_per_kb'', VInt 80000), (''cashfusion_server'', VList [])])
     = (Inl IndexError,
        world_with_config [(''fee_per_kb'', VInt 80000), (''cashfusion_server'', VList [])])
   \<and> map_of (read_user_config posix_sys (get_user_dir posix_sys)
        (snd (update_config posix_sys
           (world_with_config [(''fee_per_kb'', VInt 80000), (''cashfusion_server'', VList [])]))))
       ''fee_per_kb'' = Some (VInt 80000)"
  by code_simp

text \<open>
  C7 (as amended). Let the stored config have a version marker strictly less than the
  running version, let \<open>cashfusion_server\<close>, when present, be a list or a string that
  is not empty, and let the list of default fusion servers not be empty. Then
  \<open>update_config\<close> returns normally and saves a config whose \<open>latest_version_used\<close>
  is the running version; when neither fixup applies, what it saves is the stored
  config with nothing but that marker set.
\<close>

theorem version_stamp_always_written:
  assumes "read_user_config sys (get_user_dir sys) w = config"
    and "config_version config = VList (map VInt m)"
    and "\<not> int_tuple_ge m (VERSION_TUPLE sys)"
    and "config \<noteq> []"
    and "DEFAULT_SERVERS sys \<noteq> []"
    and "map_of config ''cashfusion_server'' = None
         \<or> (\<exists>x xs. map_of config ''cashfusion_server'' = Some (VList (x # xs)))
         \<or> (\<exists>c cs. map_of config ''cashfusion_server'' = Some (VStr (c # cs)))"
  shows "\<exists>saved. update_config sys w = (Inr (), save_user_config sys saved (get_user_dir sys) w)
           \<and> map_of saved ''latest_version_used'' = Some (VList (map VInt (VERSION_TUPLE sys)))
           \<and> (map_of config ''fee_per_kb'' \<noteq> Some (VInt 80000)
                \<and> map_of config ''fee_per_kb'' \<noteq> Some (VInt 10000)
                \<and> (\<forall>server host. map_of config ''cashfusion_server'' = Some server \<longrightarrow>
                       subscript0 server = Inr host \<longrightarrow> \<not> in_str_list host INVALID_FUSION_HOSTS)
                \<longrightarrow> saved = AList.update ''latest_version_used''
                                (VList (map VInt (VERSION_TUPLE sys))) config)"
proof -
  let ?saved = "AList.update ''latest_version_used'' (VList (map VInt (VERSION_TUPLE sys)))
                  (snd (update_config_fixups sys config))"
  have "fst (update_config_fixups sys config) = Inr ()"
    using assms(5,6) by (rule fixups_return)
  then have "update_config sys w = (Inr (), save_user_config sys ?saved (get_user_dir sys) w)"
    using update_config_outdated [OF assms(1) assms(4) assms(2) assms(3)] by simp
  moreover have "map_of ?saved ''latest_version_used'' = Some (VList (map VInt (VERSION_TUPLE sys)))"
    by (rule map_of_update_same)
  moreover have "map_of config ''fee_per_kb'' \<noteq> Some (VInt 80000)
                \<and> map_of config ''fee_per_kb'' \<noteq> Some (VInt 10000)
                \<and> (\<forall>server host. map_of config ''cashfusion_server'' = Some server \<longrightarrow>
                       subscript0 server = Inr host \<longrightarrow> \<not> in_str_list host INVALID_FUSION_HOSTS)
                \<longrightarrow> ?saved = AList.update ''latest_version_used''
                                (VList (map VInt (VERSION_TUPLE sys))) config"
    using fixups_nothing_to_fix [of config sys] by simp
  ultimately show ?thesis
    by blast
qed

theorem version_stamp_always_written_witness:
  "read_user_config posix_sys (get_user_dir posix_sys)
       (world_with_config [(''fee_per_kb'', VInt 5000)]) = [(''fee_per_kb'', VInt 5000)]
   \<and> config_version [(''fee_per_kb'', VInt 5000)] = VList (map VInt [4, 3, 1])
   \<and> \<not> int_tuple_ge [4, 3, 1] (VERSION_TUPLE posix_sys)
   \<and> DEFAULT_SERVERS posix_sys \<noteq> []
   \<and> map_of [(''fee_per_kb'', VInt 5000)] ''cashfusion_server'' = None
   \<and> update_config posix_sys (world_with_config [(''fee_per_kb'', VInt 5000)])
       = (Inr (), save_user_config posix_sys
                    [(''fee_per_kb'', VInt 5000), (''latest_version_used'', VList (map VInt [4, 3, 3]))]
                    (get_user_dir posix_sys) (world_with_config [(''fee_per_kb'', VInt 5000)]))"
proof -
  let ?c = "[(''fee_per_kb'', VInt 5000)]"
  have h1: "read_user_config posix_sys (get_user_dir posix_sys) (world_with_config ?c) = ?c"
    by code_simp
  have h2: "config_version ?c = VList (map VInt [4, 3, 1])"
    by code_simp
  have h3: "\<not> int_tuple_ge [4, 3, 1] (VERSION_TUPLE posix_sys)"
    by code_simp
  have h4: "?c \<noteq> []"
    by simp
  have h5: "DEFAULT_SERVERS posix_sys \<noteq> []"
    by (simp add: posix_sys_def)
  have none: "map_of ?c ''cashfusion_server'' = None"
    by simp
  then have h6: "map_of ?c ''cashfusion_server'' = None
         \<or> (\<exists>x xs. map_of ?c ''cashfusion_server'' = Some (VList (x # xs)))
         \<or> (\<exists>c cs. map_of ?c ''cashfusion_server'' = Some (VStr (c # cs)))"
    by (rule disjI1)
  have v: "VERSION_TUPLE posix_sys = [4, 3, 3]"
    by (simp add: posix_sys_def)
  from version_stamp_always_written [OF h1 h2 h3 h4 h5 h6]
  have "update_config posix_sys (world_with_config ?c)
       = (Inr (), save_user_config posix_sys
                    (AList.update ''latest_version_used'' (VList (map VInt (VERSION_TUPLE posix_sys))) ?c)
                    (get_user_dir posix_sys) (world_with_config ?c))"
    by auto
  then have "update_config posix_sys (world_with_config ?c)
       = (Inr (), save_user_config posix_sys
                    [(''fee_per_kb'', VInt 5000), (''latest_version_used'', VList (map VInt [4, 3, 3]))]
                    (get_user_dir posix_sys) (world_with_config ?c))"
    by (simp add: v)
  with h1 h2 h3 h5 none show ?thesis
    by (intro conjI)
qed

text \<open>
  Without the condition on \<open>cashfusion_server\<close> the write does not always happen: for
  a stored config of version 4.3.1 whose fee is not a superseded default and whose
  \<open>cashfusion_server\<close> is an empty list, neither fixup applies, yet \<open>update_config\<close>
  raises IndexError at the subscript \<open>[0]\<close>; the version is not stamped and nothing
  is saved.
\<close>

theorem version_stamp_skipped_when_fusion_lookup_raises:
  "update_config posix_sys
       (world_with_config [(''fee_per_kb'', VInt 5000), (''cashfusion_server'', VList [])])
     = (Inl IndexError,
        world_with_config [(''fee_per_kb'', VInt 5000), (''cashfusion_server'', VList [])])
   \<and> map_of (read_user_config posix_sys (get_user_dir posix_sys)
        (snd (update_config posix_sys
           (world_with_config [(''fee_per_kb'', VInt 5000), (''cashfusion_server'', VList [])]))))
       ''latest_version_used'' = None"
  by code_simp

end
